theory Spec2Isabelle
  imports Main "HOL-Library.List_Lexorder"
begin

section \<open>Python values used by application/cache.py\<close>

text \<open>
  A Python \<open>str\<close> is a sequence of code points and a \<open>bytes\<close> object a sequence of
  octets; both are lists of naturals here. Python compares two \<open>str\<close> by code point,
  lexicographically, which is the order of \<open>List_Lexorder\<close> on \<open>nat list\<close>.
\<close>

type_synonym pystr = "nat list"
type_synonym pybytes = "nat list"

definition text_of :: "string \<Rightarrow> pystr" where
  "text_of s = map of_char s"

text \<open>
  Exceptions. \<open>UnicodeEncodeError\<close>, \<open>UnicodeDecodeError\<close> and
  \<open>json.JSONDecodeError\<close> are subclasses of \<open>ValueError\<close>, so the handlers
  \<open>except ValueError\<close> of the two wrappers catch them; \<open>TypeError\<close> and every class
  under \<open>OtherException\<close> are not.
\<close>

datatype exn =
    ValueError pystr
  | UnicodeEncodeError
  | UnicodeDecodeError
  | JSONDecodeError
  | TypeError pystr
  | OtherException string pystr

fun is_ValueError :: "exn \<Rightarrow> bool" where
  "is_ValueError (ValueError m) = True"
| "is_ValueError UnicodeEncodeError = True"
| "is_ValueError UnicodeDecodeError = True"
| "is_ValueError JSONDecodeError = True"
| "is_ValueError (TypeError m) = False"
| "is_ValueError (OtherException c m) = False"

text \<open>
  The objects a conversation can be made of: the JSON-shaped values, with a dict as
  the list of its items in insertion order (field names are \<open>str\<close>); \<open>PObj\<close> for an
  object of a class the serialiser has no encoding for (a set, a \<open>bytes\<close>, a user
  class), given by its class name; and \<open>PBack\<close> for a reference from inside a container
  back to a container that encloses it, which is how a list or dict that contains
  itself appears when it is walked. Floats and tuples are left out.
\<close>

datatype pyval =
    PNone
  | PBool bool
  | PInt int
  | PStr pystr
  | PList "pyval list"
  | PDict "(pystr \<times> pyval) list"
  | PObj string
  | PBack

fun is_dict :: "pyval \<Rightarrow> bool" where
  "is_dict (PDict kvs) = True"
| "is_dict v = False"

section \<open>json.dumps\<close>

definition hexdigit :: "nat \<Rightarrow> nat" where
  "hexdigit d = (if d < 10 then 48 + d else 87 + d)"

definition hex4 :: "nat \<Rightarrow> pystr" where
  "hex4 n = [hexdigit (n div 4096 mod 16), hexdigit (n div 256 mod 16),
             hexdigit (n div 16 mod 16), hexdigit (n mod 16)]"

text \<open>
  \<open>ensure_ascii\<close> is on by default: a quote, a backslash and the five short escapes,
  then the printable ASCII range as it is, then \<open>\uXXXX\<close>, with a surrogate pair for a
  code point beyond the basic plane.
\<close>

definition escape_char :: "nat \<Rightarrow> pystr" where
  "escape_char c =
     (if c = 0x22 then [0x5C, 0x22]
      else if c = 0x5C then [0x5C, 0x5C]
      else if c = 0x08 then [0x5C, 0x62]
      else if c = 0x0C then [0x5C, 0x66]
      else if c = 0x0A then [0x5C, 0x6E]
      else if c = 0x0D then [0x5C, 0x72]
      else if c = 0x09 then [0x5C, 0x74]
      else if 0x20 \<le> c \<and> c \<le> 0x7E then [c]
      else if c < 0x10000 then [0x5C, 0x75] @ hex4 c
      else [0x5C, 0x75] @ hex4 (0xD800 + (c - 0x10000) div 1024 mod 1024)
         @ [0x5C, 0x75] @ hex4 (0xDC00 + (c - 0x10000) mod 1024))"

definition encode_basestring_ascii :: "pystr \<Rightarrow> pystr" where
  "encode_basestring_ascii s = [0x22] @ concat (map escape_char s) @ [0x22]"

function str_nat :: "nat \<Rightarrow> pystr" where
  "str_nat n = (if n < 10 then [48 + n] else str_nat (n div 10) @ [48 + n mod 10])"
  by pat_completeness auto
termination
  by (relation "measure id") auto

definition str_int :: "int \<Rightarrow> pystr" where
  "str_int i = (if i < 0 then 0x2D # str_nat (nat (- i)) else str_nat (nat i))"

fun join :: "pystr \<Rightarrow> pystr list \<Rightarrow> pystr" where
  "join sep [] = []"
| "join sep [x] = x"
| "join sep (x # y # ys) = x @ sep @ join sep (y # ys)"

lemma sum_list_insort_key:
  "sum_list (map f (insort_key k x xs)) = (f x :: nat) + sum_list (map f xs)"
  by (induction xs) auto

lemma sum_list_sort_key:
  "sum_list (map f (sort_key k xs)) = sum_list (map (f :: 'a \<Rightarrow> nat) xs)"
  by (induction xs) (auto simp: sum_list_insort_key)

lemma size_list_sort_key:
  "size_list f (sort_key k xs) = size_list f xs"
  by (simp add: size_list_conv_sum_list sum_list_sort_key)

text \<open>
  The two \<open>ValueError\<close>s of the serialiser. An \<open>int\<close> is written with \<open>int.__repr__\<close>,
  which since Python 3.11 refuses a number of more than \<open>sys.get_int_max_str_digits()\<close>
  digits, 4300 unless the application changes it (\<open>cache.py\<close> does not). A container
  met again while it is being written is a circular reference (\<open>check_circular\<close> is on
  by default).
\<close>

definition int_max_str_digits :: nat where
  "int_max_str_digits = 4300"

definition int_limit_msg :: pystr where
  "int_limit_msg = text_of (''Exceeds the limit (4300 digits) for integer string ''
     @ ''conversion; use sys.set_int_max_str_digits() to increase the limit'')"

definition circular_msg :: pystr where
  "circular_msg = text_of ''Circular reference detected''"

text \<open>
  \<open>json.dumps(obj, sort_keys=sk)\<close> with the default separators \<open>', '\<close> and \<open>': '\<close>.
  With \<open>sort_keys\<close> the items of every dict, nested ones too, are sorted by key before
  they are written. A value of a class without an encoding raises \<open>TypeError\<close>; an
  oversized \<open>int\<close> and a circular reference raise \<open>ValueError\<close>. The resource limits of
  the interpreter (recursion depth, memory) are not modelled.
\<close>

function dumps :: "bool \<Rightarrow> pyval \<Rightarrow> exn + pystr"
  and dumps_list :: "bool \<Rightarrow> pyval list \<Rightarrow> exn + pystr list"
  and dumps_items :: "bool \<Rightarrow> (pystr \<times> pyval) list \<Rightarrow> exn + pystr list"
where
  "dumps sk PNone = Inr (text_of ''null'')"
| "dumps sk (PBool b) = Inr (text_of (if b then ''true'' else ''false''))"
| "dumps sk (PInt i) =
     (if int_max_str_digits < length (str_nat (nat (abs i)))
      then Inl (ValueError int_limit_msg)
      else Inr (str_int i))"
| "dumps sk (PStr s) = Inr (encode_basestring_ascii s)"
| "dumps sk (PList xs) =
     (case dumps_list sk xs of
        Inl e \<Rightarrow> Inl e
      | Inr ts \<Rightarrow> Inr (text_of ''['' @ join (text_of '', '') ts @ text_of '']''))"
| "dumps sk (PDict kvs) =
     (case dumps_items sk (if sk then sort_key fst kvs else kvs) of
        Inl e \<Rightarrow> Inl e
      | Inr ts \<Rightarrow> Inr (text_of ''{'' @ join (text_of '', '') ts @ text_of ''}''))"
| "dumps sk (PObj cls) =
     Inl (TypeError (text_of (''Object of type '' @ cls @ '' is not JSON serializable'')))"
| "dumps sk PBack = Inl (ValueError circular_msg)"
| "dumps_list sk [] = Inr []"
| "dumps_list sk (x # xs) =
     (case dumps sk x of
        Inl e \<Rightarrow> Inl e
      | Inr t \<Rightarrow> (case dumps_list sk xs of Inl e \<Rightarrow> Inl e | Inr ts \<Rightarrow> Inr (t # ts)))"
| "dumps_items sk [] = Inr []"
| "dumps_items sk ((k, v) # kvs) =
     (case dumps sk v of
        Inl e \<Rightarrow> Inl e
      | Inr t \<Rightarrow>
          (case dumps_items sk kvs of
             Inl e \<Rightarrow> Inl e
           | Inr ts \<Rightarrow> Inr ((encode_basestring_ascii k @ text_of '': '' @ t) # ts)))"
  by pat_completeness auto
termination
  by (relation "measure (\<lambda>a. case a of
          Inl (sk, v) \<Rightarrow> 2 * size v
        | Inr (Inl (sk, xs)) \<Rightarrow> 2 * size_list size xs + 1
        | Inr (Inr (sk, kvs)) \<Rightarrow> 2 * size_list (size_prod (\<lambda>_. 0) size) kvs + 1)")
     (auto simp: size_list_sort_key)

section \<open>The UTF-8 codec\<close>

text \<open>
  redis-py encodes a \<open>str\<close> value with UTF-8 before sending it, and the wrappers decode
  what \<open>get\<close> returns with \<open>.decode('utf-8')\<close>. Both are strict: a surrogate code point
  does not encode (\<open>UnicodeEncodeError\<close>), and an ill-formed byte sequence does not
  decode (\<open>UnicodeDecodeError\<close>). \<open>None\<close> stands for the error.
\<close>

definition utf8_encode_char :: "nat \<Rightarrow> pybytes option" where
  "utf8_encode_char c =
     (if c < 0x80 then Some [c]
      else if c < 0x800 then Some [0xC0 + c div 64, 0x80 + c mod 64]
      else if c < 0x10000 then
        (if 0xD800 \<le> c \<and> c \<le> 0xDFFF then None
         else Some [0xE0 + c div 4096, 0x80 + c div 64 mod 64, 0x80 + c mod 64])
      else if c < 0x110000 then
        Some [0xF0 + c div 262144, 0x80 + c div 4096 mod 64, 0x80 + c div 64 mod 64,
              0x80 + c mod 64]
      else None)"

fun utf8_encode :: "pystr \<Rightarrow> pybytes option" where
  "utf8_encode [] = Some []"
| "utf8_encode (c # cs) =
     (case utf8_encode_char c of
        None \<Rightarrow> None
      | Some bs \<Rightarrow> map_option ((@) bs) (utf8_encode cs))"

definition is_cont :: "nat \<Rightarrow> bool" where
  "is_cont b = (0x80 \<le> b \<and> b \<le> 0xBF)"

fun utf8_decode :: "pybytes \<Rightarrow> pystr option" where
  "utf8_decode [] = Some []"
| "utf8_decode (b # bs) =
     (if b < 0x80 then map_option ((#) b) (utf8_decode bs)
      else if 0xC2 \<le> b \<and> b \<le> 0xDF then
        (case bs of
           b1 # r \<Rightarrow>
             if is_cont b1
             then map_option ((#) ((b - 0xC0) * 64 + (b1 - 0x80))) (utf8_decode r)
             else None
         | _ \<Rightarrow> None)
      else if 0xE0 \<le> b \<and> b \<le> 0xEF then
        (case bs of
           b1 # b2 # r \<Rightarrow>
             if (if b = 0xE0 then 0xA0 else 0x80) \<le> b1
                \<and> b1 \<le> (if b = 0xED then 0x9F else 0xBF) \<and> is_cont b2
             then map_option
                    ((#) ((b - 0xE0) * 4096 + (b1 - 0x80) * 64 + (b2 - 0x80)))
                    (utf8_decode r)
             else None
         | _ \<Rightarrow> None)
      else if 0xF0 \<le> b \<and> b \<le> 0xF4 then
        (case bs of
           b1 # b2 # b3 # r \<Rightarrow>
             if (if b = 0xF0 then 0x90 else 0x80) \<le> b1
                \<and> b1 \<le> (if b = 0xF4 then 0x8F else 0xBF) \<and> is_cont b2 \<and> is_cont b3
             then map_option
                    ((#) ((b - 0xF0) * 262144 + (b1 - 0x80) * 4096 + (b2 - 0x80) * 64
                          + (b3 - 0x80)))
                    (utf8_decode r)
             else None
         | _ \<Rightarrow> None)
      else None)"

section \<open>The key deriver\<close>

text \<open>
  \<open>get_hash\<close> lives in \<open>application.utils\<close>, outside this file: it is the parameter
  \<open>H\<close> of everything below, any function from text to text.

  \<^verbatim>\<open>def gen_cache_key(*messages, model="docgpt")\<close>: the only check is that every
  message is a dict; then the messages are serialised with sorted keys, prefixed with
  the model name and hashed.
\<close>

definition gen_cache_key :: "(pystr \<Rightarrow> pystr) \<Rightarrow> pyval list \<Rightarrow> pystr \<Rightarrow> exn + pystr" where
  "gen_cache_key H messages model =
     (if \<not> list_all is_dict messages
      then Inl (ValueError (text_of ''All messages must be dictionaries.''))
      else (case dumps True (PList messages) of
              Inl e \<Rightarrow> Inl e
            | Inr messages_str \<Rightarrow> Inr (H (model @ text_of ''_'' @ messages_str))))"

definition default_model :: pystr where
  "default_model = text_of ''docgpt''"

section \<open>The store and the world around a call\<close>

datatype logline = LogExn exn | LogHit pystr | LogSaved pystr

text \<open>
  What a call can observe and change: the Redis store (key to payload and expiry in
  seconds), the number of calls made to the wrapped generation function, the writes
  made to the store in order, the lines printed, and the number of \<open>time.sleep(0.07)\<close>
  calls. The store is taken to be reachable, and an entry to be still alive when read.
\<close>

record world =
  store :: "pystr \<rightharpoonup> (pybytes \<times> nat)"
  gen_calls :: nat
  writes :: "(pystr \<times> pybytes \<times> nat) list"
  printed :: "logline list"
  sleeps :: nat

definition redis_get :: "world \<Rightarrow> pystr \<Rightarrow> pybytes option" where
  "redis_get w k = map_option fst (store w k)"

definition redis_set :: "world \<Rightarrow> pystr \<Rightarrow> pystr \<Rightarrow> nat \<Rightarrow> exn + world" where
  "redis_set w k v ex =
     (case utf8_encode v of
        None \<Rightarrow> Inl UnicodeEncodeError
      | Some bs \<Rightarrow>
          Inr (w\<lparr>store := (store w)(k \<mapsto> (bs, ex)), writes := writes w @ [(k, bs, ex)]\<rparr>))"

text \<open>The hit test \<open>if cached_response:\<close>: neither \<open>None\<close> nor the empty \<open>bytes\<close>.\<close>

fun truthy :: "pybytes option \<Rightarrow> bool" where
  "truthy None = False"
| "truthy (Some bs) = (bs \<noteq> [])"

section \<open>The unary wrapper\<close>

definition sentinel :: pystr where
  "sentinel =
     text_of ''Error: No user message found in the conversation to generate a cache key.''"

text \<open>
  The wrapped function \<open>func\<close> maps the model and the messages to its result or to the
  exception it raises; \<open>self\<close> and the extra arguments are passed through untouched and
  left out. \<open>gen_cache_try\<close> is the body of the \<open>try\<close>, \<open>gen_cache\<close> the whole wrapper
  with its handler. The call \<open>gen_cache_key(*messages)\<close> passes no model, so the
  default applies.
\<close>

definition gen_cache_try ::
  "(pystr \<Rightarrow> pystr) \<Rightarrow> (pystr \<Rightarrow> pyval list \<Rightarrow> exn + pystr) \<Rightarrow> world \<Rightarrow> pystr \<Rightarrow> pyval list
     \<Rightarrow> (exn + pystr) \<times> world" where
  "gen_cache_try H func w model messages =
     (case gen_cache_key H messages default_model of
        Inl e \<Rightarrow> (Inl e, w)
      | Inr cache_key \<Rightarrow>
          (let cached_response = redis_get w cache_key in
           if truthy cached_response then
             (case utf8_decode (case cached_response of Some bs \<Rightarrow> bs | None \<Rightarrow> []) of
                None \<Rightarrow> (Inl UnicodeDecodeError, w)
              | Some s \<Rightarrow> (Inr s, w))
           else
             (let w1 = w\<lparr>gen_calls := gen_calls w + 1\<rparr> in
              case func model messages of
                Inl e \<Rightarrow> (Inl e, w1)
              | Inr result \<Rightarrow>
                  (case redis_set w1 cache_key result 3600 of
                     Inl e \<Rightarrow> (Inl e, w1)
                   | Inr w2 \<Rightarrow> (Inr result, w2)))))"

definition gen_cache ::
  "(pystr \<Rightarrow> pystr) \<Rightarrow> (pystr \<Rightarrow> pyval list \<Rightarrow> exn + pystr) \<Rightarrow> world \<Rightarrow> pystr \<Rightarrow> pyval list
     \<Rightarrow> (exn + pystr) \<times> world" where
  "gen_cache H func w model messages =
     (case gen_cache_try H func w model messages of
        (Inl e, w') \<Rightarrow>
          if is_ValueError e
          then (Inr sentinel, w'\<lparr>printed := printed w' @ [LogExn e]\<rparr>)
          else (Inl e, w')
      | (Inr r, w') \<Rightarrow> (Inr r, w'))"

section \<open>json.loads on a stored chunk list\<close>

definition hexval :: "nat \<Rightarrow> nat option" where
  "hexval c =
     (if 48 \<le> c \<and> c \<le> 57 then Some (c - 48)
      else if 97 \<le> c \<and> c \<le> 102 then Some (c - 87)
      else if 65 \<le> c \<and> c \<le> 70 then Some (c - 55)
      else None)"

fun hex4_val :: "pystr \<Rightarrow> nat option" where
  "hex4_val [a, b, c, d] =
     (case (hexval a, hexval b, hexval c, hexval d) of
        (Some x, Some y, Some z, Some t) \<Rightarrow> Some (((x * 16 + y) * 16 + z) * 16 + t)
      | _ \<Rightarrow> None)"
| "hex4_val ds = None"

definition cons_chunk :: "nat \<Rightarrow> (pystr \<times> pystr) option \<Rightarrow> (pystr \<times> pystr) option" where
  "cons_chunk c r = map_option (\<lambda>(s, rest). (c # s, rest)) r"

text \<open>
  The string scanner of the decoder, started after the opening quote; it returns the
  decoded string and the input after the closing quote. A raw control character is
  refused (\<open>strict\<close> is on by default), and a high surrogate escape directly followed
  by a low surrogate escape is joined into one code point.
\<close>

fun scanstring :: "pystr \<Rightarrow> (pystr \<times> pystr) option" where
  "scanstring [] = None"
| "scanstring (c # cs) =
     (if c = 0x22 then Some ([], cs)
      else if c = 0x5C then
        (case cs of
           [] \<Rightarrow> None
         | e # r \<Rightarrow>
             if e = 0x75 then
               (case hex4_val (take 4 r) of
                  None \<Rightarrow> None
                | Some uni \<Rightarrow>
                    if 0xD800 \<le> uni \<and> uni \<le> 0xDBFF \<and> take 2 (drop 4 r) = [0x5C, 0x75] then
                      (case hex4_val (take 4 (drop 6 r)) of
                         None \<Rightarrow> None
                       | Some uni2 \<Rightarrow>
                           if 0xDC00 \<le> uni2 \<and> uni2 \<le> 0xDFFF
                           then cons_chunk (0x10000 + (uni - 0xD800) * 1024 + (uni2 - 0xDC00))
                                  (scanstring (drop 10 r))
                           else cons_chunk uni (scanstring (drop 4 r)))
                    else cons_chunk uni (scanstring (drop 4 r)))
             else if e = 0x22 then cons_chunk 0x22 (scanstring r)
             else if e = 0x5C then cons_chunk 0x5C (scanstring r)
             else if e = 0x2F then cons_chunk 0x2F (scanstring r)
             else if e = 0x62 then cons_chunk 0x08 (scanstring r)
             else if e = 0x66 then cons_chunk 0x0C (scanstring r)
             else if e = 0x6E then cons_chunk 0x0A (scanstring r)
             else if e = 0x72 then cons_chunk 0x0D (scanstring r)
             else if e = 0x74 then cons_chunk 0x09 (scanstring r)
             else None)
      else if c < 0x20 then None
      else cons_chunk c (scanstring cs))"

definition is_ws :: "nat \<Rightarrow> bool" where
  "is_ws c = (c = 0x20 \<or> c = 0x09 \<or> c = 0x0A \<or> c = 0x0D)"

definition skip_ws :: "pystr \<Rightarrow> pystr" where
  "skip_ws t = dropWhile is_ws t"

lemma cons_chunk_Some:
  "cons_chunk c r = Some (s, rest) \<Longrightarrow> \<exists>s'. r = Some (s', rest)"
  by (auto simp: cons_chunk_def)

lemma scanstring_shorter:
  "scanstring t = Some (s, rest) \<Longrightarrow> length rest < length t"
proof (induction "length t" arbitrary: t s rest rule: less_induct)
  case less
  obtain c cs where t: "t = c # cs"
    using less.prems by (cases t) auto
  have IH: "length rest < length t"
    if "scanstring u = Some (s', rest)" "length u < length t" for u s'
    using less.hyps [OF that(2) that(1)] that(2) by simp
  from less.prems show ?case
    unfolding t scanstring.simps
    apply (simp split: if_splits list.splits option.splits)
    apply (auto dest!: cons_chunk_Some)
    using IH [unfolded t] apply fastforce+
    done
qed

lemma skip_ws_Cons_shorter:
  "skip_ws t = d # r \<Longrightarrow> length r < length t"
proof -
  assume a: "skip_ws t = d # r"
  have "length (skip_ws t) \<le> length t"
    unfolding skip_ws_def by (rule length_dropWhile_le)
  with a show ?thesis by simp
qed

lemma skip_ws_le: "length (skip_ws t) \<le> length t"
  unfolding skip_ws_def by (rule length_dropWhile_le)

text \<open>
  The elements of a non-empty array, started at the first element, up to and with the
  closing bracket. Only string elements are read: the stream wrapper stores nothing else.
\<close>

function parse_elems :: "pystr \<Rightarrow> (pystr list \<times> pystr) option" where
  "parse_elems t =
     (case t of
        [] \<Rightarrow> None
      | q # t1 \<Rightarrow>
          if q \<noteq> 0x22 then None
          else
            (case scanstring t1 of
               None \<Rightarrow> None
             | Some (s, t2) \<Rightarrow>
                 (case skip_ws t2 of
                    [] \<Rightarrow> None
                  | d # t3 \<Rightarrow>
                      if d = 0x5D then Some ([s], t3)
                      else if d = 0x2C then
                        map_option (\<lambda>(ss, r). (s # ss, r)) (parse_elems (skip_ws t3))
                      else None)))"
  by pat_completeness auto
termination
proof (relation "measure length", goal_cases)
  case 1
  show ?case by simp
next
  case (2 t q t1 x s t2 d t3)
  have "length t2 < length t1"
    using 2 scanstring_shorter [of t1 s t2] by simp
  moreover have "length t3 < length t2"
    using 2 skip_ws_Cons_shorter [of t2 d t3] by simp
  moreover have "length (skip_ws t3) \<le> length t3"
    by (rule skip_ws_le)
  ultimately show ?case using 2 by simp
qed

text \<open>
  \<open>json.loads\<close> on a document that is an array of strings: \<open>Some\<close> of the strings.
  \<open>None\<close> is every other document, ill-formed (\<open>JSONDecodeError\<close>) or of another shape.
\<close>

definition json_loads_chunks :: "pystr \<Rightarrow> pystr list option" where
  "json_loads_chunks doc =
     (if take 1 doc = [0xFEFF] then None
      else
        (case skip_ws doc of
           [] \<Rightarrow> None
         | b # t \<Rightarrow>
             if b \<noteq> 0x5B then None
             else
               (case skip_ws t of
                  [] \<Rightarrow> None
                | d # t' \<Rightarrow>
                    if d = 0x5D then (if skip_ws t' = [] then Some [] else None)
                    else
                      (case parse_elems (d # t') of
                         None \<Rightarrow> None
                       | Some (chunks, rest) \<Rightarrow>
                           if skip_ws rest = [] then Some chunks else None))))"

section \<open>The streaming wrapper\<close>

text \<open>
  A run of the generator returned by the wrapper, drained by its caller: the chunks it
  yields, and how it ends. \<open>Unmodelled\<close> is a hit on a payload that is not the JSON of
  an array of strings, which the wrapper never stores.

  The wrapped function gives the chunks its generator yields and the exception that
  ends it, if one does.
\<close>

datatype ending = Finished | Raised exn | Unmodelled

definition stream_cache_try ::
  "(pystr \<Rightarrow> pyval list \<Rightarrow> bool \<Rightarrow> pystr list \<times> exn option) \<Rightarrow> world \<Rightarrow> pystr \<Rightarrow> pystr
     \<Rightarrow> pyval list \<Rightarrow> bool \<Rightarrow> (pystr list \<times> ending) \<times> world" where
  "stream_cache_try func w cache_key model messages stream =
     (let cached_response = redis_get w cache_key in
      if truthy cached_response then
        (let w1 = w\<lparr>printed := printed w @ [LogHit cache_key]\<rparr> in
         case utf8_decode (case cached_response of Some bs \<Rightarrow> bs | None \<Rightarrow> []) of
           None \<Rightarrow> (([], Raised UnicodeDecodeError), w1)
         | Some doc \<Rightarrow>
             (case json_loads_chunks doc of
                None \<Rightarrow> (([], Unmodelled), w1)
              | Some chunks \<Rightarrow>
                  ((chunks, Finished), w1\<lparr>sleeps := sleeps w1 + length chunks\<rparr>)))
      else
        (let w1 = w\<lparr>gen_calls := gen_calls w + 1\<rparr> in
         case func model messages stream of
           (chunks, Some e) \<Rightarrow> ((chunks, Raised e), w1)
         | (chunks, None) \<Rightarrow>
             (case dumps False (PList (map PStr chunks)) of
                Inl e \<Rightarrow> ((chunks, Raised e), w1)
              | Inr data \<Rightarrow>
                  (case redis_set w1 cache_key data 1800 of
                     Inl e \<Rightarrow> ((chunks, Raised e), w1)
                   | Inr w2 \<Rightarrow>
                       ((chunks, Finished),
                        w2\<lparr>printed := printed w2 @ [LogSaved cache_key]\<rparr>)))))"

text \<open>
  The key is derived before the \<open>try\<close>, so its \<open>ValueError\<close> leaves the generator at the
  first \<open>next\<close>; the handler covers the lookup, the replay and the generation.
\<close>

definition stream_cache ::
  "(pystr \<Rightarrow> pystr) \<Rightarrow> (pystr \<Rightarrow> pyval list \<Rightarrow> bool \<Rightarrow> pystr list \<times> exn option) \<Rightarrow> world
     \<Rightarrow> pystr \<Rightarrow> pyval list \<Rightarrow> bool \<Rightarrow> (pystr list \<times> ending) \<times> world" where
  "stream_cache H func w model messages stream =
     (case gen_cache_key H messages default_model of
        Inl e \<Rightarrow> (([], Raised e), w)
      | Inr cache_key \<Rightarrow>
          (case stream_cache_try func w cache_key model messages stream of
             ((ys, Raised e), w') \<Rightarrow>
               if is_ValueError e
               then ((ys @ [sentinel], Finished), w'\<lparr>printed := printed w' @ [LogExn e]\<rparr>)
               else ((ys, Raised e), w')
           | ((ys, Finished), w') \<Rightarrow> ((ys, Finished), w')
           | ((ys, Unmodelled), w') \<Rightarrow> ((ys, Unmodelled), w')))"

section \<open>Auxiliary notions for the statements\<close>

text \<open>A message all of whose fields hold text, as \<open>{"role": ..., "content": ...}\<close> does.\<close>

fun is_text :: "pyval \<Rightarrow> bool" where
  "is_text (PStr s) = True"
| "is_text v = False"

fun text_message :: "pyval \<Rightarrow> bool" where
  "text_message (PDict kvs) = list_all (\<lambda>kv. is_text (snd kv)) kvs"
| "text_message v = False"


text \<open>
  The surrogate code points, and the chunks the JSON round trip keeps as they are:
  strings of code points in which no high surrogate is directly followed by a low one.
  Every well-formed Unicode text is one, having no surrogate at all. \<open>starts_low\<close> is
  what the scanner looks for after a high surrogate escape: a \<open>\u\<close> escape that is
  not that of a code point outside the low surrogates.
\<close>

definition is_high :: "nat \<Rightarrow> bool" where
  "is_high c = (0xD800 \<le> c \<and> c \<le> 0xDBFF)"

definition is_low :: "nat \<Rightarrow> bool" where
  "is_low c = (0xDC00 \<le> c \<and> c \<le> 0xDFFF)"

fun json_safe :: "pystr \<Rightarrow> bool" where
  "json_safe [] = True"
| "json_safe [c] = (c < 0x110000)"
| "json_safe (c # d # s) = (c < 0x110000 \<and> \<not> (is_high c \<and> is_low d) \<and> json_safe (d # s))"

definition starts_low :: "pystr \<Rightarrow> bool" where
  "starts_low rest =
     (take 2 rest = [0x5C, 0x75]
      \<and> (case hex4_val (take 4 (drop 2 rest)) of None \<Rightarrow> True | Some u \<Rightarrow> is_low u))"

text \<open>The world after \<open>n\<close> calls of the wrapped function with the same arguments.\<close>

fun gen_cache_repeat ::
  "(pystr \<Rightarrow> pystr) \<Rightarrow> (pystr \<Rightarrow> pyval list \<Rightarrow> exn + pystr) \<Rightarrow> pystr \<Rightarrow> pyval list \<Rightarrow> nat
     \<Rightarrow> world \<Rightarrow> world" where
  "gen_cache_repeat H func model messages 0 w = w"
| "gen_cache_repeat H func model messages (Suc n) w =
     gen_cache_repeat H func model messages n (snd (gen_cache H func w model messages))"

section \<open>Concrete inputs\<close>

definition empty_world :: world where
  "empty_world = \<lparr>store = Map.empty, gen_calls = 0, writes = [], printed = [], sleeps = 0\<rparr>"

definition msg_hi :: pyval where
  "msg_hi = PDict [(text_of ''role'', PStr (text_of ''user'')),
                   (text_of ''content'', PStr (text_of ''hi''))]"


definition msg_system :: pyval where
  "msg_system = PDict [(text_of ''role'', PStr (text_of ''system'')),
                       (text_of ''content'', PStr (text_of ''hi''))]"

definition msg_set :: pyval where
  "msg_set = PDict [(text_of ''role'', PStr (text_of ''user'')),
                    (text_of ''content'', PObj ''set'')]"

text \<open>
  Two generations that stream to their end: the chunks \<open>"a", "", "b", "c"\<close>, and one
  chunk made of the two surrogates \<open>U+D83D U+DE00\<close>.
\<close>

definition abc_stream :: "pystr \<Rightarrow> pyval list \<Rightarrow> bool \<Rightarrow> pystr list \<times> exn option" where
  "abc_stream model messages stream = ([text_of ''a'', [], text_of ''b'', text_of ''c''], None)"

definition pair_stream :: "pystr \<Rightarrow> pyval list \<Rightarrow> bool \<Rightarrow> pystr list \<times> exn option" where
  "pair_stream model messages stream = ([[0xD83D, 0xDE00]], None)"

text \<open>The text hashed for the conversation \<open>[msg_hi]\<close>, whatever the model argument.\<close>

definition key_hi :: pystr where
  "key_hi = text_of ''docgpt_[{\"content\": \"hi\", \"role\": \"user\"}]''"

section \<open>Evaluation lemmas\<close>

lemma gen_cache_key_msg_hi:
  "gen_cache_key H [msg_hi] default_model = Inr (H key_hi)"
  by (simp add: gen_cache_key_def msg_hi_def default_model_def key_hi_def text_of_def
      encode_basestring_ascii_def escape_char_def)

lemma gen_cache_key_msg_system:
  "gen_cache_key H [msg_system] model =
     Inr (H (model @ text_of ''_[{\"content\": \"hi\", \"role\": \"system\"}]''))"
  by (simp add: gen_cache_key_def msg_system_def text_of_def
      encode_basestring_ascii_def escape_char_def)


lemma utf8_hello:
  "utf8_encode (text_of ''hello'') = Some (text_of ''hello'')"
  "utf8_decode (text_of ''hello'') = Some (text_of ''hello'')"
  by (simp_all add: text_of_def utf8_encode_char_def)

lemma dumps_items_text:
  "list_all (\<lambda>kv. is_text (snd kv)) kvs \<Longrightarrow> \<exists>ts. dumps_items sk kvs = Inr ts"
proof (induction kvs)
  case Nil
  show ?case by simp
next
  case (Cons kv kvs)
  obtain k v where kv: "kv = (k, v)"
    by (cases kv)
  from Cons.prems obtain s where v: "v = PStr s"
    by (cases v) (simp_all add: kv)
  from Cons obtain ts where "dumps_items sk kvs = Inr ts"
    by auto
  then show ?case
    by (simp add: kv v)
qed

lemma dumps_text_message:
  assumes "text_message m"
  shows "\<exists>t. dumps sk m = Inr t"
proof -
  from assms obtain kvs where m: "m = PDict kvs"
    and kvs: "list_all (\<lambda>kv. is_text (snd kv)) kvs"
    by (cases m) simp_all
  have "list_all (\<lambda>kv. is_text (snd kv)) (if sk then sort_key fst kvs else kvs)"
    using kvs by (simp add: list_all_iff)
  from dumps_items_text [OF this, of sk] show ?thesis
    by (auto simp: m)
qed

lemma dumps_list_text_messages:
  "\<forall>m \<in> set ms. text_message m \<Longrightarrow> \<exists>ts. dumps_list sk ms = Inr ts"
proof (induction ms)
  case Nil
  show ?case by simp
next
  case (Cons m ms)
  from Cons.prems dumps_text_message [of m sk] obtain t where "dumps sk m = Inr t"
    by auto
  moreover from Cons obtain ts where "dumps_list sk ms = Inr ts"
    by auto
  ultimately show ?case
    by simp
qed

lemma dumps_errors:
  "dumps sk v = Inl e \<Longrightarrow>
     (\<exists>m. e = TypeError m) \<or> e = ValueError int_limit_msg \<or> e = ValueError circular_msg"
  "dumps_list sk xs = Inl e \<Longrightarrow>
     (\<exists>m. e = TypeError m) \<or> e = ValueError int_limit_msg \<or> e = ValueError circular_msg"
  "dumps_items sk kvs = Inl e \<Longrightarrow>
     (\<exists>m. e = TypeError m) \<or> e = ValueError int_limit_msg \<or> e = ValueError circular_msg"
proof (induction sk v and sk xs and sk kvs arbitrary: e and e and e
    rule: dumps_dumps_list_dumps_items.induct)
  case (6 sk kvs)
  then show ?case by (cases sk) (auto split: sum.splits)
qed (auto split: sum.splits if_splits)

lemma serialiser_messages:
  "int_limit_msg \<noteq> text_of ''All messages must be dictionaries.''"
  "circular_msg \<noteq> text_of ''All messages must be dictionaries.''"
  "int_limit_msg \<noteq> sentinel"
  "circular_msg \<noteq> sentinel"
  "text_of ''All messages must be dictionaries.'' \<noteq> sentinel"
  by (simp_all add: int_limit_msg_def circular_msg_def sentinel_def text_of_def)

lemma gen_cache_empty_miss:
  assumes "gen_cache_key H messages default_model = Inr k"
    and "\<not> truthy (redis_get w k)"
    and "func model messages = Inr []"
  shows "gen_cache H func w model messages =
           (Inr [], w\<lparr>gen_calls := gen_calls w + 1, store := (store w)(k \<mapsto> ([], 3600)),
                      writes := writes w @ [(k, [], 3600)]\<rparr>)"
  using assms
  by (auto simp: gen_cache_def gen_cache_try_def redis_set_def Let_def)

lemma gen_cache_repeat_calls:
  assumes "gen_cache_key H messages default_model = Inr k"
    and "func model messages = Inr []"
  shows "\<not> truthy (redis_get w k) \<Longrightarrow>
         gen_calls (gen_cache_repeat H func model messages n w) = gen_calls w + n"
proof (induction n arbitrary: w)
  case 0
  show ?case by simp
next
  case (Suc n)
  let ?w1 = "snd (gen_cache H func w model messages)"
  have "gen_cache H func w model messages =
           (Inr [], w\<lparr>gen_calls := gen_calls w + 1, store := (store w)(k \<mapsto> ([], 3600)),
                      writes := writes w @ [(k, [], 3600)]\<rparr>)"
    using assms(1) Suc.prems assms(2) by (rule gen_cache_empty_miss [where func = func])
  then have w1: "?w1 = w\<lparr>gen_calls := gen_calls w + 1, store := (store w)(k \<mapsto> ([], 3600)),
                      writes := writes w @ [(k, [], 3600)]\<rparr>"
    by simp
  have "\<not> truthy (redis_get ?w1 k)"
    by (simp add: w1 redis_get_def)
  from Suc.IH [OF this] show ?case by (simp add: w1)
qed

section \<open>Invalid input to the unary wrapper\<close>

lemma gen_cache_key_not_dict:
  "m \<in> set messages \<Longrightarrow> \<not> is_dict m \<Longrightarrow>
   gen_cache_key H messages model =
     Inl (ValueError (text_of ''All messages must be dictionaries.''))"
  by (auto simp: gen_cache_key_def list_all_iff)

text \<open>
  C4. A call of the unary wrapper whose messages hold an element that is not a dict does
  not raise: it returns the fixed sentinel text (in the source, the string
  \<open>"Error: No user message found in the conversation to generate a cache key."\<close>),
  writes nothing to the store and never calls the wrapped generation function; the
  only effect is the printed error.
\<close>

theorem gen_cache_invalid_input:
  assumes "m \<in> set messages" and "\<not> is_dict m"
  shows "gen_cache H func w model messages =
           (Inr sentinel,
            w\<lparr>printed := printed w
                 @ [LogExn (ValueError (text_of ''All messages must be dictionaries.''))]\<rparr>)
         \<and> writes (snd (gen_cache H func w model messages)) = writes w
         \<and> store (snd (gen_cache H func w model messages)) = store w
         \<and> gen_calls (snd (gen_cache H func w model messages)) = gen_calls w"
  using gen_cache_key_not_dict [OF assms, of H default_model]
  by (simp add: gen_cache_def gen_cache_try_def)

theorem gen_cache_invalid_input_witness:
  "PStr (text_of ''hi'') \<in> set [msg_hi, PStr (text_of ''hi'')]
   \<and> \<not> is_dict (PStr (text_of ''hi''))
   \<and> fst (gen_cache (\<lambda>x. x) (\<lambda>model messages. Inr (text_of ''hello'')) empty_world
            (text_of ''m'') [msg_hi, PStr (text_of ''hi'')]) = Inr sentinel
   \<and> writes (snd (gen_cache (\<lambda>x. x) (\<lambda>model messages. Inr (text_of ''hello'')) empty_world
            (text_of ''m'') [msg_hi, PStr (text_of ''hi'')])) = []
   \<and> gen_calls (snd (gen_cache (\<lambda>x. x) (\<lambda>model messages. Inr (text_of ''hello'')) empty_world
            (text_of ''m'') [msg_hi, PStr (text_of ''hi'')])) = 0"
  using gen_cache_invalid_input [of "PStr (text_of ''hi'')" "[msg_hi, PStr (text_of ''hi'')]"
      "\<lambda>x. x" "\<lambda>model messages. Inr (text_of ''hello'')" empty_world "text_of ''m''"]
  by (simp add: empty_world_def)

section \<open>The model name and the cache key\<close>

text \<open>
  C1. The claim: the unary wrapper derives its key from the model and the messages, so
  that two calls with the same messages and different models use different entries.
  The wrapper calls \<open>gen_cache_key(*messages)\<close> without the model: the key is that of
  the default model \<open>"docgpt"\<close> for every caller. Here a first call for the model
  \<open>"gpt-4"\<close> stores \<open>"hello"\<close>, and a second call with the same messages for the model
  \<open>"llama"\<close> is served that entry: the generation function is not called and the world
  is unchanged.
\<close>

theorem gen_cache_ignores_model:
  "gen_cache H func2
     (snd (gen_cache H (\<lambda>model messages. Inr (text_of ''hello'')) empty_world
             (text_of ''gpt-4'') [msg_hi]))
     (text_of ''llama'') [msg_hi] =
   (Inr (text_of ''hello''),
    snd (gen_cache H (\<lambda>model messages. Inr (text_of ''hello'')) empty_world
           (text_of ''gpt-4'') [msg_hi]))"
  by (simp add: gen_cache_def gen_cache_try_def gen_cache_key_msg_hi empty_world_def
      redis_get_def redis_set_def utf8_hello) (simp add: text_of_def)

section \<open>Invalid input to the streaming wrapper\<close>

text \<open>
  C2. The claim: when the key derivation fails, the streaming wrapper yields the
  sentinel chunk alone and ends. In the source the derivation stands before the \<open>try\<close>:
  for a conversation holding a string, the generator yields nothing and raises the
  \<open>ValueError\<close> of \<open>gen_cache_key\<close> to its caller; the world is untouched.
\<close>

theorem stream_cache_invalid_input_raises:
  "stream_cache H func w model [msg_hi, PStr (text_of ''hi'')] stream =
     (([], Raised (ValueError (text_of ''All messages must be dictionaries.''))), w)"
  by (simp add: stream_cache_def gen_cache_key_def msg_hi_def)

section \<open>Failures of the wrapped generation\<close>

text \<open>
  C3. The claim: a failure of the wrapped generation, of any exception type, reaches
  the caller unchanged. The handlers catch \<open>ValueError\<close> around the generation too:
  a generation that raises \<open>ValueError("boom")\<close> makes the unary wrapper return the
  sentinel text, and makes the streaming wrapper yield the chunks so far, then the
  sentinel chunk, and end normally.
\<close>

theorem generation_ValueError_masked:
  "gen_cache H (\<lambda>model messages. Inl (ValueError (text_of ''boom''))) empty_world model [msg_hi] =
     (Inr sentinel,
      empty_world\<lparr>gen_calls := 1, printed := [LogExn (ValueError (text_of ''boom''))]\<rparr>)
   \<and> stream_cache H (\<lambda>model messages stream. ([text_of ''a''], Some (ValueError (text_of ''boom''))))
       empty_world model [msg_hi] stream =
     (([text_of ''a'', sentinel], Finished),
      empty_world\<lparr>gen_calls := 1, printed := [LogExn (ValueError (text_of ''boom''))]\<rparr>)"
  by (simp add: gen_cache_def gen_cache_try_def stream_cache_def stream_cache_try_def
      gen_cache_key_msg_hi empty_world_def redis_get_def)

text \<open>
  C7. When the wrapped generation raises, on either path, nothing is written: the
  writes and the store are those before the call. The unary function raising gives
  no result to store; the streaming generator raising after some chunks leaves the
  loop before \<open>redis_client.set\<close>.
\<close>

theorem failed_generation_not_cached:
  assumes "func model messages = Inl e"
    and "sfunc model messages stream = (chunks, Some e')"
  shows "writes (snd (gen_cache H func w model messages)) = writes w
       \<and> store (snd (gen_cache H func w model messages)) = store w
       \<and> writes (snd (stream_cache H sfunc w model messages stream)) = writes w
       \<and> store (snd (stream_cache H sfunc w model messages stream)) = store w"
  using assms
  by (auto simp: gen_cache_def gen_cache_try_def stream_cache_def stream_cache_try_def Let_def
      split: sum.splits option.splits prod.splits ending.splits)

theorem failed_generation_not_cached_witness:
  "writes (snd (gen_cache id (\<lambda>model messages. Inl (OtherException ''RuntimeError'' []))
       empty_world (text_of ''m'') [msg_hi])) = []
   \<and> store (snd (gen_cache id (\<lambda>model messages. Inl (OtherException ''RuntimeError'' []))
       empty_world (text_of ''m'') [msg_hi])) = Map.empty
   \<and> writes (snd (stream_cache id
       (\<lambda>model messages stream. ([text_of ''a''], Some (OtherException ''RuntimeError'' [])))
       empty_world (text_of ''m'') [msg_hi] True)) = []
   \<and> store (snd (stream_cache id
       (\<lambda>model messages stream. ([text_of ''a''], Some (OtherException ''RuntimeError'' [])))
       empty_world (text_of ''m'') [msg_hi] True)) = Map.empty"
  using failed_generation_not_cached [of "\<lambda>model messages. Inl (OtherException ''RuntimeError'' [])"
      "text_of ''m''" "[msg_hi]" "OtherException ''RuntimeError'' []"
      "\<lambda>model messages stream. ([text_of ''a''], Some (OtherException ''RuntimeError'' []))"
      True "[text_of ''a'']" "OtherException ''RuntimeError'' []" id empty_world]
  by (simp add: empty_world_def)

section \<open>The unary round trip\<close>

text \<open>
  C5. For the model \<open>"m"\<close> and the messages \<open>[{"role": "user", "content": "hi"}]\<close>, a
  first call whose generation returns \<open>"hello"\<close> writes \<open>"hello"\<close> under the derived key,
  with an expiry of 3600 seconds, and returns \<open>"hello"\<close>; a second call with the same
  arguments returns \<open>"hello"\<close> and leaves the world as it is: no call of the generation
  function, whatever it is, and no further write.
\<close>

theorem gen_cache_round_trip:
  "gen_cache H (\<lambda>model messages. Inr (text_of ''hello'')) empty_world (text_of ''m'') [msg_hi] =
     (Inr (text_of ''hello''),
      empty_world\<lparr>store := [H key_hi \<mapsto> (text_of ''hello'', 3600)], gen_calls := 1,
                  writes := [(H key_hi, text_of ''hello'', 3600)]\<rparr>)
   \<and> gen_cache H func2
       (empty_world\<lparr>store := [H key_hi \<mapsto> (text_of ''hello'', 3600)], gen_calls := 1,
                  writes := [(H key_hi, text_of ''hello'', 3600)]\<rparr>) (text_of ''m'') [msg_hi] =
     (Inr (text_of ''hello''),
      empty_world\<lparr>store := [H key_hi \<mapsto> (text_of ''hello'', 3600)], gen_calls := 1,
                  writes := [(H key_hi, text_of ''hello'', 3600)]\<rparr>)"
  by (simp add: gen_cache_def gen_cache_try_def gen_cache_key_msg_hi empty_world_def
      redis_get_def redis_set_def utf8_hello) (simp add: text_of_def)

section \<open>The empty response\<close>

text \<open>
  C9. When the wrapped generation returns the empty string on a miss, the wrapper
  stores the empty payload under the derived key and returns it; the stored empty
  payload fails the hit test, so each later call with the same arguments calls the
  generation again: after \<open>n\<close> calls the generation has been called \<open>n\<close> times.
\<close>

theorem empty_response_never_served:
  assumes "gen_cache_key H messages default_model = Inr k"
    and "\<not> truthy (redis_get w k)"
    and "func model messages = Inr []"
  shows "gen_cache H func w model messages =
           (Inr [], w\<lparr>gen_calls := gen_calls w + 1, store := (store w)(k \<mapsto> ([], 3600)),
                      writes := writes w @ [(k, [], 3600)]\<rparr>)
       \<and> \<not> truthy (redis_get (snd (gen_cache H func w model messages)) k)
       \<and> gen_calls (gen_cache_repeat H func model messages n w) = gen_calls w + n"
proof -
  have first: "gen_cache H func w model messages =
           (Inr [], w\<lparr>gen_calls := gen_calls w + 1, store := (store w)(k \<mapsto> ([], 3600)),
                      writes := writes w @ [(k, [], 3600)]\<rparr>)"
    using assms by (rule gen_cache_empty_miss [where func = func])
  moreover have "\<not> truthy (redis_get (snd (gen_cache H func w model messages)) k)"
    by (simp add: first redis_get_def)
  moreover have "gen_calls (gen_cache_repeat H func model messages n w) = gen_calls w + n"
    using assms(1) assms(3) assms(2) by (rule gen_cache_repeat_calls [where func = func])
  ultimately show ?thesis by simp
qed

theorem empty_response_never_served_witness:
  "gen_cache id (\<lambda>model messages. Inr []) empty_world (text_of ''m'') [msg_hi] =
     (Inr [], empty_world\<lparr>gen_calls := 1, store := [key_hi \<mapsto> ([], 3600)],
                          writes := [(key_hi, [], 3600)]\<rparr>)
   \<and> gen_calls (gen_cache_repeat id (\<lambda>model messages. Inr []) (text_of ''m'') [msg_hi] 5
        empty_world) = 5"
  using empty_response_never_served [of id "[msg_hi]" key_hi empty_world
      "\<lambda>model messages. Inr []" "text_of ''m''" 5] gen_cache_key_msg_hi [of id]
  by (simp add: empty_world_def redis_get_def)

section \<open>When the key deriver fails\<close>

text \<open>
  C10, as stated: \<open>gen_cache_key\<close> fails if and only if some element of the messages is
  not a mapping. It fails here on a conversation of one mapping, whose content is a
  Python \<open>set\<close>: the serialiser raises \<open>TypeError\<close>.
\<close>

theorem gen_cache_key_fails_on_mapping:
  "list_all is_dict [msg_set]
   \<and> gen_cache_key id [msg_set] default_model =
       Inl (TypeError (text_of ''Object of type set is not JSON serializable''))"
  by (simp add: gen_cache_key_def msg_set_def text_of_def)

text \<open>
  C10, amended: \<open>gen_cache_key\<close> raises its own \<open>ValueError\<close> if and only if some element
  of the messages is not a mapping, and fails at all if and only if, besides, the
  serialiser raises on the list of messages; its exception is passed on unchanged.
  It never looks at a role: on mappings the outcome is the serialiser's alone, so
  every sequence of mappings it can write yields the hash of the model name, an
  underscore and the serialised messages --- every conversation of messages with
  text fields, whatever their roles, and the empty conversation. No failure carries
  the text about a missing user message.
\<close>

theorem gen_cache_key_failures:
  "((gen_cache_key H messages model =
       Inl (ValueError (text_of ''All messages must be dictionaries.'')))
      = (\<exists>m \<in> set messages. \<not> is_dict m))
   \<and> ((\<exists>e. gen_cache_key H messages model = Inl e)
      = ((\<exists>m \<in> set messages. \<not> is_dict m) \<or> (\<exists>e. dumps True (PList messages) = Inl e)))
   \<and> ((\<forall>m \<in> set messages. is_dict m) \<longrightarrow>
       gen_cache_key H messages model =
         (case dumps True (PList messages) of
            Inl e \<Rightarrow> Inl e
          | Inr s \<Rightarrow> Inr (H (model @ text_of ''_'' @ s))))
   \<and> ((\<forall>m \<in> set messages. text_message m) \<longrightarrow>
       (\<exists>s. dumps True (PList messages) = Inr s
            \<and> gen_cache_key H messages model = Inr (H (model @ text_of ''_'' @ s))))
   \<and> gen_cache_key H [] model = Inr (H (model @ text_of ''_[]''))
   \<and> gen_cache_key H messages model \<noteq> Inl (ValueError sentinel)"
proof -
  have a: "(gen_cache_key H messages model =
      Inl (ValueError (text_of ''All messages must be dictionaries.'')))
     = (\<exists>m \<in> set messages. \<not> is_dict m)"
    using dumps_errors(1) [of True "PList messages"] serialiser_messages(1,2)
    by (auto simp: gen_cache_key_def list_all_iff split: sum.splits)
  have b: "(\<exists>e. gen_cache_key H messages model = Inl e)
     = ((\<exists>m \<in> set messages. \<not> is_dict m) \<or> (\<exists>e. dumps True (PList messages) = Inl e))"
    by (cases "dumps True (PList messages)") (auto simp: gen_cache_key_def list_all_iff)
  have c: "(\<forall>m \<in> set messages. is_dict m) \<longrightarrow>
     gen_cache_key H messages model =
       (case dumps True (PList messages) of
          Inl e \<Rightarrow> Inl e
        | Inr s \<Rightarrow> Inr (H (model @ text_of ''_'' @ s)))"
    by (simp add: gen_cache_key_def list_all_iff)
  have d: "(\<forall>m \<in> set messages. text_message m) \<longrightarrow>
     (\<exists>s. dumps True (PList messages) = Inr s
          \<and> gen_cache_key H messages model = Inr (H (model @ text_of ''_'' @ s)))"
  proof
    assume t: "\<forall>m \<in> set messages. text_message m"
    have dict: "is_dict m" if "text_message m" for m
      using that by (cases m) simp_all
    from dumps_list_text_messages [OF t, of True] obtain ts
      where "dumps_list True messages = Inr ts"
      by blast
    then show "\<exists>s. dumps True (PList messages) = Inr s
          \<and> gen_cache_key H messages model = Inr (H (model @ text_of ''_'' @ s))"
      using t dict by (simp add: gen_cache_key_def list_all_iff)
  qed
  have e: "gen_cache_key H [] model = Inr (H (model @ text_of ''_[]''))"
    by (simp add: gen_cache_key_def text_of_def)
  have f: "gen_cache_key H messages model \<noteq> Inl (ValueError sentinel)"
    using dumps_errors(1) [of True "PList messages"] serialiser_messages(3,4,5)
    by (auto simp: gen_cache_key_def split: if_splits sum.splits)
  from a b c d e f show ?thesis by blast
qed

theorem gen_cache_key_failures_witness:
  "is_dict msg_system \<and> text_message msg_system
   \<and> gen_cache_key id [msg_system] default_model =
       Inr (default_model @ text_of ''_[{\"content\": \"hi\", \"role\": \"system\"}]'')"
  using gen_cache_key_failures [of id "[msg_system]" default_model]
    gen_cache_key_msg_system [of id default_model]
  by (simp add: msg_system_def)

section \<open>Field order inside a message\<close>








section \<open>Streaming content fidelity\<close>

subsection \<open>The decoder reads back what the encoder wrote\<close>

lemma hexval_hexdigit: "d < 16 \<Longrightarrow> hexval (hexdigit d) = Some d"
  by (auto simp: hexval_def hexdigit_def)

lemma hex4_digits:
  fixes n :: nat
  assumes "n < 65536"
  shows "((n div 4096 mod 16 * 16 + n div 256 mod 16) * 16 + n div 16 mod 16) * 16 + n mod 16 = n"
proof -
  define a where "a = n div 16"
  define b where "b = a div 16"
  define c where "c = b div 16"
  have n: "n = a * 16 + n mod 16"
    unfolding a_def by (rule div_mult_mod_eq [symmetric])
  have a: "a = b * 16 + a mod 16"
    unfolding b_def by (rule div_mult_mod_eq [symmetric])
  have b: "b = c * 16 + b mod 16"
    unfolding c_def by (rule div_mult_mod_eq [symmetric])
  have d256: "n div 256 = b"
    using div_mult2_eq [of n 16 16] by (simp only: a_def b_def)
  have d4096: "n div 4096 = c"
    using div_mult2_eq [of n 256 16] d256 by (simp only: c_def)
  have "n div 4096 < 16"
    by (rule less_mult_imp_div_less) (use assms in simp)
  then have c16: "c mod 16 = c"
    using d4096 by simp
  have "((c mod 16 * 16 + b mod 16) * 16 + a mod 16) * 16 + n mod 16 = n"
    unfolding c16 by (simp only: b [symmetric] a [symmetric] n [symmetric])
  then show ?thesis
    by (simp only: d256 d4096 a_def [symmetric])
qed

lemma hex4_val_hex4: "n < 65536 \<Longrightarrow> hex4_val (hex4 n) = Some n"
  using hex4_digits [of n] by (simp add: hex4_def hexval_hexdigit)

lemma length_hex4: "length (hex4 n) = 4"
  by (simp add: hex4_def)

lemma scan_quote: "scanstring (0x22 # cs) = Some ([], cs)"
  by simp

lemma scan_plain:
  "c \<noteq> 0x22 \<Longrightarrow> c \<noteq> 0x5C \<Longrightarrow> 0x20 \<le> c \<Longrightarrow> scanstring (c # cs) = cons_chunk c (scanstring cs)"
  by simp

lemma scan_short:
  "scanstring (0x5C # 0x22 # r) = cons_chunk 0x22 (scanstring r)"
  "scanstring (0x5C # 0x5C # r) = cons_chunk 0x5C (scanstring r)"
  "scanstring (0x5C # 0x62 # r) = cons_chunk 0x08 (scanstring r)"
  "scanstring (0x5C # 0x66 # r) = cons_chunk 0x0C (scanstring r)"
  "scanstring (0x5C # 0x6E # r) = cons_chunk 0x0A (scanstring r)"
  "scanstring (0x5C # 0x72 # r) = cons_chunk 0x0D (scanstring r)"
  "scanstring (0x5C # 0x74 # r) = cons_chunk 0x09 (scanstring r)"
  by simp_all

lemma scan_u:
  "scanstring (0x5C # 0x75 # r) =
     (case hex4_val (take 4 r) of
        None \<Rightarrow> None
      | Some uni \<Rightarrow>
          if is_high uni \<and> take 2 (drop 4 r) = [0x5C, 0x75] then
            (case hex4_val (take 4 (drop 6 r)) of
               None \<Rightarrow> None
             | Some uni2 \<Rightarrow>
                 if is_low uni2
                 then cons_chunk (0x10000 + (uni - 0xD800) * 1024 + (uni2 - 0xDC00))
                        (scanstring (drop 10 r))
                 else cons_chunk uni (scanstring (drop 4 r)))
          else cons_chunk uni (scanstring (drop 4 r)))"
  by (simp add: is_high_def is_low_def cong: option.case_cong if_cong)

declare scanstring.simps [simp del]

lemma take4_hex4: "take 4 (hex4 n @ rest) = hex4 n"
  by (simp add: length_hex4)

lemma drop4_hex4: "drop 4 (hex4 n @ rest) = rest"
  by (simp add: length_hex4)

lemma drop6_hex4: "drop 6 (hex4 n @ rest) = drop 2 rest"
  by (simp add: length_hex4)

lemma drop10_hex4: "drop 10 (hex4 n @ rest) = drop 6 rest"
  by (simp add: length_hex4)

lemma scan_u_single:
  assumes "n < 65536" and "\<not> (is_high n \<and> starts_low rest)"
  shows "scanstring (0x5C # 0x75 # hex4 n @ rest) = cons_chunk n (scanstring rest)"
proof (cases "is_high n \<and> take 2 rest = [0x5C, 0x75]")
  case False
  then show ?thesis
    using assms(1)
    by (simp only: scan_u take4_hex4 drop4_hex4 hex4_val_hex4 option.case if_False)
next
  case True
  with assms(2) obtain u where u: "hex4_val (take 4 (drop 2 rest)) = Some u" "\<not> is_low u"
    by (auto simp: starts_low_def split: option.splits)
  show ?thesis
    using assms(1) True u
    by (simp only: scan_u take4_hex4 drop4_hex4 drop6_hex4 hex4_val_hex4 option.case
          if_True if_False simp_thms)
qed

lemma scan_u_pair:
  assumes "hi < 65536" and "lo < 65536" and "is_high hi" and "is_low lo"
  shows "scanstring (0x5C # 0x75 # hex4 hi @ 0x5C # 0x75 # hex4 lo @ rest) =
           cons_chunk (0x10000 + (hi - 0xD800) * 1024 + (lo - 0xDC00)) (scanstring rest)"
proof -
  have t2: "take 2 (0x5C # 0x75 # hex4 lo @ rest) = [0x5C, 0x75]"
    by simp
  have d2: "drop 2 (0x5C # 0x75 # hex4 lo @ rest) = hex4 lo @ rest"
    by simp
  have d6: "drop 6 (0x5C # 0x75 # hex4 lo @ rest) = rest"
    by (simp add: length_hex4)
  show ?thesis
    using assms
    by (simp only: scan_u take4_hex4 drop4_hex4 drop6_hex4 drop10_hex4 t2 d2 d6
          hex4_val_hex4 option.case if_True simp_thms)
qed

lemma astral_parts:
  fixes c :: nat
  assumes "0x10000 \<le> c" and "c < 0x110000"
  defines "hi \<equiv> 0xD800 + (c - 0x10000) div 1024 mod 1024"
    and "lo \<equiv> 0xDC00 + (c - 0x10000) mod 1024"
  shows "hi < 65536" and "lo < 65536" and "is_high hi" and "is_low lo"
    and "0x10000 + (hi - 0xD800) * 1024 + (lo - 0xDC00) = c"
proof -
  define k where "k = c - 0x10000"
  have k: "c = 0x10000 + k" "k < 0x100000"
    using assms(1,2) by (simp_all add: k_def)
  have m1: "k div 1024 mod 1024 < 1024" and m2: "k mod 1024 < 1024"
    by simp_all
  have "k div 1024 < 1024"
    by (rule less_mult_imp_div_less) (use k(2) in simp)
  then have q: "k div 1024 mod 1024 = k div 1024"
    by simp
  have hi: "hi = 0xD800 + k div 1024 mod 1024" and lo: "lo = 0xDC00 + k mod 1024"
    by (simp_all add: hi_def lo_def k_def)
  show "hi < 65536" using m1 unfolding hi by linarith
  show "lo < 65536" using m2 unfolding lo by linarith
  show "is_high hi" using m1 unfolding hi is_high_def by linarith
  show "is_low lo" using m2 unfolding lo is_low_def by linarith
  have "hi - 0xD800 = k div 1024" "lo - 0xDC00 = k mod 1024"
    unfolding hi lo q by simp_all
  then have "0x10000 + (hi - 0xD800) * 1024 + (lo - 0xDC00) = 0x10000 + (k div 1024 * 1024 + k mod 1024)"
    by (simp only: add.assoc)
  also have "\<dots> = 0x10000 + k"
    by (simp only: div_mult_mod_eq)
  finally show "0x10000 + (hi - 0xD800) * 1024 + (lo - 0xDC00) = c"
    using k(1) by simp
qed

lemma scan_char:
  assumes "c < 0x110000" and "\<not> (is_high c \<and> starts_low rest)"
  shows "scanstring (escape_char c @ rest) = cons_chunk c (scanstring rest)"
proof -
  consider (short) "c = 0x22 \<or> c = 0x5C \<or> c = 0x08 \<or> c = 0x0C \<or> c = 0x0A \<or> c = 0x0D \<or> c = 0x09"
    | (plain) "c \<noteq> 0x22" "c \<noteq> 0x5C" "0x20 \<le> c" "c \<le> 0x7E"
    | (bmp) "c \<noteq> 0x08" "c \<noteq> 0x0C" "c \<noteq> 0x0A" "c \<noteq> 0x0D" "c \<noteq> 0x09"
        "\<not> (0x20 \<le> c \<and> c \<le> 0x7E)" "c < 0x10000"
    | (astral) "0x10000 \<le> c"
    by linarith
  then show ?thesis
  proof cases
    case short
    then show ?thesis
      by (auto simp: escape_char_def scan_short)
  next
    case plain
    then show ?thesis
      by (simp add: escape_char_def scan_plain)
  next
    case bmp
    then have e: "escape_char c = 0x5C # 0x75 # hex4 c"
      by (auto simp: escape_char_def)
    show ?thesis
      unfolding e using scan_u_single [OF _ assms(2)] bmp(7) by simp
  next
    case astral
    then have e: "escape_char c =
        0x5C # 0x75 # hex4 (0xD800 + (c - 0x10000) div 1024 mod 1024)
          @ 0x5C # 0x75 # hex4 (0xDC00 + (c - 0x10000) mod 1024)"
      by (simp add: escape_char_def)
    show ?thesis
      unfolding e
      using scan_u_pair [OF astral_parts(1-4) [OF astral assms(1)], of rest]
        astral_parts(5) [OF astral assms(1)]
      by simp
  qed
qed

lemma hex4_val_take_escape:
  assumes "d < 0x110000" and "take 2 (escape_char d @ X) = [0x5C, 0x75]"
  shows "\<exists>u. hex4_val (take 4 (drop 2 (escape_char d @ X))) = Some u \<and> (is_low u \<longrightarrow> is_low d)"
proof (cases "d < 0x10000")
  case True
  with assms(2) have e: "escape_char d = 0x5C # 0x75 # hex4 d"
    by (simp add: escape_char_def split: if_splits)
  show ?thesis
    unfolding e using True by (simp add: length_hex4 hex4_val_hex4)
next
  case False
  then have ge: "0x10000 \<le> d" by simp
  then have e: "escape_char d =
      0x5C # 0x75 # hex4 (0xD800 + (d - 0x10000) div 1024 mod 1024)
        @ 0x5C # 0x75 # hex4 (0xDC00 + (d - 0x10000) mod 1024)"
    by (simp add: escape_char_def)
  note p = astral_parts [OF ge assms(1)]
  have "\<not> is_low (0xD800 + (d - 0x10000) div 1024 mod 1024)"
    using p(3) by (simp add: is_high_def is_low_def)
  then show ?thesis
    unfolding e using p(1) by (simp add: length_hex4 hex4_val_hex4)
qed

lemma starts_low_escape:
  assumes "d < 0x110000" and "starts_low (escape_char d @ X)"
  shows "is_low d"
proof -
  from assms(2) have t: "take 2 (escape_char d @ X) = [0x5C, 0x75]"
    by (simp add: starts_low_def)
  from hex4_val_take_escape [OF assms(1) t] obtain u where
    u: "hex4_val (take 4 (drop 2 (escape_char d @ X))) = Some u" "is_low u \<longrightarrow> is_low d"
    by blast
  from assms(2) u(1) have "is_low u"
    by (simp add: starts_low_def)
  with u(2) show ?thesis by simp
qed

lemma starts_low_quote: "\<not> starts_low (0x22 # tail)"
  by (simp add: starts_low_def)

lemma json_safe_Cons: "json_safe (c # s) \<Longrightarrow> c < 0x110000 \<and> json_safe s"
  by (cases s) simp_all

lemma scanstring_encoded:
  "json_safe s \<Longrightarrow> scanstring (concat (map escape_char s) @ 0x22 # tail) = Some (s, tail)"
proof (induction s rule: json_safe.induct)
  case 1
  show ?case by (simp add: scan_quote)
next
  case (2 c)
  then have "c < 0x110000" by simp
  then show ?case
    using scan_char [of c "0x22 # tail"]
    by (simp add: starts_low_quote scan_quote cons_chunk_def)
next
  case (3 c d s)
  then have c: "c < 0x110000" and nhl: "\<not> (is_high c \<and> is_low d)" and ds: "json_safe (d # s)"
    by simp_all
  have d: "d < 0x110000"
    using json_safe_Cons [OF ds] by simp
  let ?rest = "escape_char d @ (concat (map escape_char s) @ 0x22 # tail)"
  have "\<not> (is_high c \<and> starts_low ?rest)"
    using nhl starts_low_escape [OF d] by blast
  from scan_char [OF c this] 3(1) [OF ds] show ?case
    by (simp add: cons_chunk_def)
qed

declare parse_elems.simps [simp del]

lemma join_Cons: "join sep (x # xs) = (if xs = [] then x else x @ sep @ join sep xs)"
  by (cases xs) simp_all

lemma join_encoded_quote:
  "cs \<noteq> [] \<Longrightarrow> \<exists>r. join sep (map encode_basestring_ascii cs) = 0x22 # r"
  by (cases cs) (simp_all add: join_Cons encode_basestring_ascii_def)

lemma skip_ws_not_ws: "\<not> is_ws c \<Longrightarrow> skip_ws (c # t) = c # t"
  by (simp add: skip_ws_def)

lemma skip_ws_space: "skip_ws (0x20 # t) = skip_ws t"
  by (simp add: skip_ws_def is_ws_def)

lemma not_ws: "\<not> is_ws 0x22" "\<not> is_ws 0x2C" "\<not> is_ws 0x5D" "\<not> is_ws 0x5B"
  by (simp_all add: is_ws_def)

lemma parse_elems_quote:
  "parse_elems (0x22 # t1) =
     (case scanstring t1 of
        None \<Rightarrow> None
      | Some (s, t2) \<Rightarrow>
          (case skip_ws t2 of
             [] \<Rightarrow> None
           | d # t3 \<Rightarrow>
               if d = 0x5D then Some ([s], t3)
               else if d = 0x2C then
                 map_option (\<lambda>(ss, r). (s # ss, r)) (parse_elems (skip_ws t3))
               else None))"
  by (subst parse_elems.simps) simp

lemma parse_elems_encoded:
  "cs \<noteq> [] \<Longrightarrow> \<forall>c \<in> set cs. json_safe c \<Longrightarrow>
   parse_elems (join [0x2C, 0x20] (map encode_basestring_ascii cs) @ 0x5D # tail) = Some (cs, tail)"
proof (induction cs rule: list_nonempty_induct)
  case (single c)
  then have "json_safe c" by simp
  from scanstring_encoded [OF this, of "0x5D # tail"] show ?case
    by (simp add: encode_basestring_ascii_def parse_elems_quote skip_ws_not_ws not_ws)
next
  case (cons c cs)
  then have c: "json_safe c" and cs: "\<forall>c \<in> set cs. json_safe c"
    by simp_all
  let ?J = "join [0x2C, 0x20] (map encode_basestring_ascii cs)"
  from join_encoded_quote [OF cons.hyps, of "[0x2C, 0x20]"] obtain r where r: "?J = 0x22 # r"
    by blast
  have sk: "skip_ws (?J @ 0x5D # tail) = ?J @ 0x5D # tail"
    by (simp add: r skip_ws_not_ws not_ws)
  have "join [0x2C, 0x20] (map encode_basestring_ascii (c # cs)) @ 0x5D # tail =
      0x22 # concat (map escape_char c) @ 0x22 # (0x2C # 0x20 # ?J @ 0x5D # tail)"
    using cons.hyps by (simp add: join_Cons encode_basestring_ascii_def)
  then show ?case
    using scanstring_encoded [OF c, of "0x2C # 0x20 # ?J @ 0x5D # tail"] cons.IH [OF cs] sk
    by (simp add: parse_elems_quote skip_ws_not_ws skip_ws_space not_ws)
qed

lemma dumps_list_strs:
  "dumps_list sk (map PStr cs) = Inr (map encode_basestring_ascii cs)"
  by (induction cs) simp_all

lemma dumps_chunks:
  "dumps sk (PList (map PStr cs)) =
     Inr (0x5B # join [0x2C, 0x20] (map encode_basestring_ascii cs) @ [0x5D])"
  by (simp add: dumps_list_strs text_of_def)

lemma json_loads_chunks_encoded:
  assumes "\<forall>c \<in> set cs. json_safe c"
  shows "json_loads_chunks (0x5B # join [0x2C, 0x20] (map encode_basestring_ascii cs) @ [0x5D])
           = Some cs"
proof (cases "cs = []")
  case True
  then show ?thesis
    by (simp add: json_loads_chunks_def skip_ws_not_ws not_ws skip_ws_def)
next
  case False
  let ?J = "join [0x2C, 0x20] (map encode_basestring_ascii cs)"
  from join_encoded_quote [OF False, of "[0x2C, 0x20]"] obtain r where r: "?J = 0x22 # r"
    by blast
  have p: "parse_elems (0x22 # r @ [0x5D]) = Some (cs, [])"
    using parse_elems_encoded [OF False assms, of "[]"] by (simp add: r)
  show ?thesis
    by (simp add: json_loads_chunks_def skip_ws_not_ws not_ws r p) (simp add: skip_ws_def)
qed

subsection \<open>The stored document is ASCII\<close>

lemma hexdigit_ascii: "d < 16 \<Longrightarrow> hexdigit d < 0x80"
  by (simp add: hexdigit_def)

lemma hex4_ascii: "list_all (\<lambda>x. x < 0x80) (hex4 n)"
  by (simp add: hex4_def hexdigit_ascii)

lemma escape_char_ascii: "list_all (\<lambda>x. x < 0x80) (escape_char c)"
  using hex4_ascii by (simp add: escape_char_def)

lemma encoded_ascii: "list_all (\<lambda>x. x < 0x80) (encode_basestring_ascii s)"
  by (induction s) (simp_all add: encode_basestring_ascii_def escape_char_ascii)

lemma join_ascii:
  "list_all (\<lambda>x. x < 0x80) sep \<Longrightarrow> \<forall>t \<in> set ts. list_all (\<lambda>x. x < 0x80) t \<Longrightarrow>
   list_all (\<lambda>x. x < (0x80 :: nat)) (join sep ts)"
  by (induction sep ts rule: join.induct) simp_all

lemma chunks_doc_ascii:
  "list_all (\<lambda>x. x < 0x80)
     (0x5B # join [0x2C, 0x20] (map encode_basestring_ascii cs) @ [0x5D])"
  using join_ascii [of "[0x2C, 0x20]" "map encode_basestring_ascii cs"]
  by (simp add: encoded_ascii)

lemma utf8_encode_ascii: "list_all (\<lambda>x. x < 0x80) s \<Longrightarrow> utf8_encode s = Some s"
  by (induction s) (simp_all add: utf8_encode_char_def)

lemma utf8_decode_ascii: "list_all (\<lambda>x. x < 0x80) s \<Longrightarrow> utf8_decode s = Some s"
  by (induction s) simp_all

subsection \<open>A miss and its replay\<close>

lemma stream_cache_miss:
  assumes "gen_cache_key H messages default_model = Inr k"
    and "\<not> truthy (redis_get w k)"
    and "func model messages stream = (chunks, None)"
  shows "stream_cache H func w model messages stream =
     ((chunks, Finished),
      w\<lparr>gen_calls := gen_calls w + 1,
        store := (store w)(k \<mapsto>
          (0x5B # join [0x2C, 0x20] (map encode_basestring_ascii chunks) @ [0x5D], 1800)),
        writes := writes w @
          [(k, 0x5B # join [0x2C, 0x20] (map encode_basestring_ascii chunks) @ [0x5D], 1800)],
        printed := printed w @ [LogSaved k]\<rparr>)"
  using assms utf8_encode_ascii [OF chunks_doc_ascii [of chunks]]
  by (simp add: stream_cache_def stream_cache_try_def dumps_chunks redis_set_def
      del: dumps.simps utf8_encode.simps)

lemma stream_cache_hit:
  assumes "gen_cache_key H messages default_model = Inr k"
    and "store w k =
      Some (0x5B # join [0x2C, 0x20] (map encode_basestring_ascii chunks) @ [0x5D], ex)"
    and "\<forall>c \<in> set chunks. json_safe c"
  shows "stream_cache H func w model messages stream =
     ((chunks, Finished),
      w\<lparr>printed := printed w @ [LogHit k], sleeps := sleeps w + length chunks\<rparr>)"
  using assms(1,2) utf8_decode_ascii [OF chunks_doc_ascii [of chunks]]
    json_loads_chunks_encoded [OF assms(3)]
  by (simp add: stream_cache_def stream_cache_try_def redis_get_def
      del: utf8_decode.simps)

lemma pair_doc_loads:
  "json_loads_chunks
     (0x5B # join [0x2C, 0x20] (map encode_basestring_ascii [[0xD83D, 0xDE00]]) @ [0x5D])
     = Some [[0x1F600]]"
  by (simp add: json_loads_chunks_def encode_basestring_ascii_def escape_char_def hex4_def
      hexdigit_def parse_elems_quote scan_u scan_quote hexval_def is_high_def is_low_def
      skip_ws_def is_ws_def cons_chunk_def)

text \<open>
  C6, as stated: for every sequence of string chunks, the replay of a stored stream
  yields the text of the run that stored it. A Python \<open>str\<close> can hold surrogate code
  points. For the one chunk \<open>"\ud83d\ude00"\<close>, of two code points, the miss run yields
  the chunk and stores \<open>["\ud83d\ude00"]\<close>; the decoder joins the two escapes, and the
  replay yields the one code point \<open>U+1F600\<close>, another string.
\<close>

theorem surrogate_pair_chunk_joined:
  "fst (stream_cache id pair_stream empty_world (text_of ''m'') [msg_hi] True)
     = ([[0xD83D, 0xDE00]], Finished)
   \<and> fst (stream_cache id pair_stream
            (snd (stream_cache id pair_stream empty_world (text_of ''m'') [msg_hi] True))
            (text_of ''m'') [msg_hi] True)
     = ([[0x1F600]], Finished)
   \<and> concat (fst (fst (stream_cache id pair_stream
            (snd (stream_cache id pair_stream empty_world (text_of ''m'') [msg_hi] True))
            (text_of ''m'') [msg_hi] True)))
     \<noteq> concat (fst (fst (stream_cache id pair_stream empty_world (text_of ''m'') [msg_hi]
            True)))"
proof -
  have k: "gen_cache_key id [msg_hi] default_model = Inr key_hi"
    using gen_cache_key_msg_hi [of id] by simp
  have m: "\<not> truthy (redis_get empty_world key_hi)"
    by (simp add: empty_world_def redis_get_def)
  have f: "pair_stream (text_of ''m'') [msg_hi] True = ([[0xD83D, 0xDE00]], None)"
    by (simp add: pair_stream_def)
  note miss = stream_cache_miss
    [where func = pair_stream and model = "text_of ''m''" and stream = True, OF k m f]
  have hit: "fst (stream_cache id pair_stream
            (snd (stream_cache id pair_stream empty_world (text_of ''m'') [msg_hi] True))
            (text_of ''m'') [msg_hi] True) = ([[0x1F600]], Finished)"
    unfolding miss
    using k utf8_decode_ascii [OF chunks_doc_ascii [of "[[0xD83D, 0xDE00]]"]] pair_doc_loads
    by (simp add: stream_cache_def stream_cache_try_def redis_get_def
        del: utf8_decode.simps join.simps)
  show ?thesis
    unfolding hit by (simp add: miss)
qed

text \<open>
  C6, amended: when no chunk holds a high surrogate directly followed by a low
  surrogate (as in every well-formed Unicode text), a miss run whose generation
  streams to its end yields its chunks and stores them, and a later call for the same
  messages, in any world whose entry under the key is the one that run left, yields
  the same chunks in the same order, empty ones included, hence the same
  concatenated text, without calling the generation.
\<close>

theorem stream_cache_replay:
  assumes "gen_cache_key H messages default_model = Inr k"
    and "\<not> truthy (redis_get w k)"
    and "func model messages stream = (chunks, None)"
    and "\<forall>c \<in> set chunks. json_safe c"
    and "store w' k = store (snd (stream_cache H func w model messages stream)) k"
  shows "fst (stream_cache H func w model messages stream) = (chunks, Finished)
       \<and> fst (stream_cache H func' w' model' messages stream') = (chunks, Finished)
       \<and> concat (fst (fst (stream_cache H func' w' model' messages stream')))
           = concat (fst (fst (stream_cache H func w model messages stream)))
       \<and> gen_calls (snd (stream_cache H func' w' model' messages stream')) = gen_calls w'"
proof -
  note miss = stream_cache_miss
    [where func = func and model = model and stream = stream, OF assms(1,2,3)]
  have "store w' k =
      Some (0x5B # join [0x2C, 0x20] (map encode_basestring_ascii chunks) @ [0x5D], 1800)"
    using assms(5) by (simp add: miss)
  note hit = stream_cache_hit [OF assms(1) this assms(4), of func' model' stream']
  show ?thesis
    by (simp add: miss hit)
qed

theorem stream_cache_replay_witness:
  "gen_cache_key id [msg_hi] default_model = Inr key_hi
   \<and> \<not> truthy (redis_get empty_world key_hi)
   \<and> list_all json_safe [text_of ''a'', [], text_of ''b'', text_of ''c'']
   \<and> fst (stream_cache id abc_stream
            (snd (stream_cache id abc_stream empty_world (text_of ''m'') [msg_hi] True))
            (text_of ''m'') [msg_hi] True)
       = ([text_of ''a'', [], text_of ''b'', text_of ''c''], Finished)"
  using stream_cache_replay [of id "[msg_hi]" key_hi empty_world abc_stream "text_of ''m''" True
      "[text_of ''a'', [], text_of ''b'', text_of ''c'']"
      "snd (stream_cache id abc_stream empty_world (text_of ''m'') [msg_hi] True)"
      abc_stream "text_of ''m''" True]
    gen_cache_key_msg_hi [of id]
  by (simp add: empty_world_def redis_get_def abc_stream_def text_of_def)

end
